theory Spec2Isabelle
  imports Main "HOL-Library.Word"
begin

section \<open>GIF background remover: a model of \<open>main.py\<close>\<close>

text \<open>
  The script iterates the frames of an animated image, writes each frame to a temporary
  PNG, passes the bytes of that file to a background-removal model and writes the answer
  to a second file. Its own code is validation, path arithmetic, a loop with a
  \<open>try/finally\<close> and logging; everything else is delegated to the image library, the
  inference library and the operating system.

  The model makes these collaborators explicit:
  \<^item> the filesystem is a map from paths to entries, carried in a \<open>world\<close> record together
    with the logging calls and the calls made to the collaborators;
  \<^item> the image library and the inference library are fields of an \<open>env\<close> record, each a
    function that may answer with an exception;
  \<^item> operating-system failures that a map cannot explain (permissions, a read-only or
    full disk, an I/O error) come from the \<open>fault\<close> field of \<open>env\<close>, asked at every
    filesystem operation;
  \<^item> every \<open>raise\<close> is a value \<open>Inl e\<close>; every function returns the world it leaves.

  A path is the list of its components, and one path names one entry: symbolic links,
  hard links, \<open>..\<close> components and case-insensitive filesystems are outside the model.
  Exceptions are the subclasses of Python's \<open>Exception\<close>; \<open>KeyboardInterrupt\<close> and
  \<open>SystemExit\<close> are not modelled. What the collaborators do to the filesystem on their
  own account (the inference library may download a model file) is not modelled either.
\<close>

subsection \<open>Strings, numbers and names\<close>

type_synonym path = "string list"
type_synonym bytes = "8 word list"

text \<open>\<open>str.lower()\<close> on the ASCII range; strings are byte strings here.\<close>

definition lower_char :: "char \<Rightarrow> char" where
  "lower_char c =
     (let n = (of_char c :: nat) in if 65 \<le> n \<and> n \<le> 90 then char_of (n + 32) else c)"

definition lower :: "string \<Rightarrow> string" where
  "lower s = map lower_char s"

text \<open>\<open>str.rfind(c)\<close>: the highest index of \<open>c\<close>, \<open>None\<close> for Python's \<open>-1\<close>.\<close>

fun rfind :: "char \<Rightarrow> string \<Rightarrow> nat option" where
  "rfind c [] = None"
| "rfind c (x # xs) =
     (case rfind c xs of
        Some i \<Rightarrow> Some (Suc i)
      | None \<Rightarrow> if x = c then Some 0 else None)"

text \<open>\<open>Path.name\<close>: the final component, empty for the empty path.\<close>

definition path_name :: "path \<Rightarrow> string" where
  "path_name p = (if p = [] then [] else last p)"

text \<open>
  \<open>Path.suffix\<close>, as pathlib computes it: the part of the name from its last dot, unless
  that dot is the first or the last character of the name.
\<close>

definition suffix :: "path \<Rightarrow> string" where
  "suffix p =
     (let name = path_name p in
      case rfind (CHR ''.'') name of
        None \<Rightarrow> []
      | Some i \<Rightarrow> if 0 < i \<and> i < length name - 1 then drop i name else [])"

text \<open>\<open>str(path)\<close>: the components joined by a slash, a dot for the empty path.\<close>

fun join_slash :: "string list \<Rightarrow> string" where
  "join_slash [] = []"
| "join_slash [c] = c"
| "join_slash (c # cs) = c @ ''/'' @ join_slash cs"

definition path_str :: "path \<Rightarrow> string" where
  "path_str p = (if p = [] then ''.'' else join_slash p)"

definition digit_char :: "nat \<Rightarrow> char" where
  "digit_char d = ''0123456789'' ! d"

text \<open>\<open>str(n)\<close> for a natural number: its decimal digits.\<close>

fun str_nat :: "nat \<Rightarrow> string" where
  "str_nat n = (if n < 10 then [digit_char n] else str_nat (n div 10) @ [digit_char (n mod 10)])"

declare str_nat.simps [simp del]

text \<open>
  The format specification \<open>{n:03d}\<close> for a natural number: the decimal digits, filled
  with zeros on the left up to a width of three, and wider when there are more digits.
\<close>

definition fmt_03d :: "nat \<Rightarrow> string" where
  "fmt_03d n = (let s = str_nat n in replicate (3 - length s) (CHR ''0'') @ s)"

text \<open>The two file names of frame \<open>frame_count\<close> (lines 74 and 75).\<close>

definition temp_name :: "nat \<Rightarrow> string" where
  "temp_name frame_count = ''frame_'' @ fmt_03d frame_count @ ''.png''"

definition output_name :: "nat \<Rightarrow> string" where
  "output_name frame_count = ''frame_'' @ fmt_03d frame_count @ ''_bg_removed.png''"

text \<open>Reading a decimal string back; used to show that the names do not collide.\<close>

definition digit_val :: "char \<Rightarrow> nat" where
  "digit_val c = of_char c - 48"

definition nat_of_str :: "string \<Rightarrow> nat" where
  "nat_of_str s = foldl (\<lambda>a c. 10 * a + digit_val c) 0 s"

subsection \<open>Exceptions, the filesystem and the world\<close>

datatype exn_class =
    FileNotFoundError
  | FileExistsError
  | NotADirectoryError
  | IsADirectoryError
  | PermissionError
  | ValueError
  | OtherError string

text \<open>An exception: its class and the text \<open>str(e)\<close> gives.\<close>

datatype exn = Exn exn_class string

fun exn_class_of :: "exn \<Rightarrow> exn_class" where
  "exn_class_of (Exn c m) = c"

fun exn_str :: "exn \<Rightarrow> string" where
  "exn_str (Exn c m) = m"

datatype entry = Dir | File bytes

text \<open>
  The error numbers a filesystem operation can fail with for a reason the map does not
  show, and the exception Python raises for each: \<open>PermissionError\<close> for \<open>EACCES\<close>, a
  plain \<open>OSError\<close> for the others.
\<close>

datatype os_fault = EACCES | EROFS | ENOSPC | EIO

datatype fs_op =
    OpMkdir path
  | OpOpenRead path
  | OpOpenWrite path
  | OpWrite path
  | OpUnlink path

datatype log_level = DEBUG | INFO | WARNING | ERROR

datatype 's call = CallNewSession "string option" | CallRemove bytes 's

text \<open>
  The world: the filesystem, the calls made to the \<open>logging\<close> module in order, the level
  \<open>setup_logging\<close> configured, the filesystem operations attempted in order, and the calls
  made to the inference library in order.
\<close>

record 's world =
  fs :: "path \<rightharpoonup> entry"
  logs :: "(log_level \<times> string) list"
  log_threshold :: log_level
  fs_ops :: "fs_op list"
  calls :: "'s call list"

text \<open>A decoded container: the \<open>duration\<close> entry of its \<open>info\<close> dictionary and its frames.\<close>

record 'f image =
  info_duration :: "int option"
  frames :: "'f list"

text \<open>
  The collaborators. \<open>new_session None\<close> is \<open>new_session()\<close>, \<open>new_session (Some m)\<close> is
  \<open>new_session(m)\<close>; \<open>image_open\<close> decodes the bytes of a file; \<open>convert_rgba\<close> is
  \<open>frame.convert("RGBA")\<close>; \<open>png_encode\<close> is the PNG encoder behind \<open>frame.save\<close>;
  \<open>remove_bg\<close> is \<open>remove(data, session=session)\<close>.
\<close>

record ('f, 'p, 's) env =
  new_session :: "string option \<Rightarrow> exn + 's"
  image_open :: "bytes \<Rightarrow> exn + 'f image"
  convert_rgba :: "'f \<Rightarrow> exn + 'p"
  png_encode :: "'p \<Rightarrow> bytes"
  remove_bg :: "bytes \<Rightarrow> 's \<Rightarrow> exn + bytes"
  fault :: "fs_op \<Rightarrow> os_fault option"

definition os_error :: "exn_class \<Rightarrow> string \<Rightarrow> path \<Rightarrow> exn" where
  "os_error c msg p = Exn c (msg @ '': '' @ path_str p)"

fun fault_exn :: "os_fault \<Rightarrow> path \<Rightarrow> exn" where
  "fault_exn EACCES p = os_error PermissionError ''[Errno 13] Permission denied'' p"
| "fault_exn EROFS p = os_error (OtherError ''OSError'') ''[Errno 30] Read-only file system'' p"
| "fault_exn ENOSPC p = os_error (OtherError ''OSError'') ''[Errno 28] No space left on device'' p"
| "fault_exn EIO p = os_error (OtherError ''OSError'') ''[Errno 5] Input/output error'' p"

text \<open>\<open>Path.exists()\<close> and \<open>Path.is_dir()\<close>; the empty path is the current directory.\<close>

definition path_exists :: "'s world \<Rightarrow> path \<Rightarrow> bool" where
  "path_exists w p = (p = [] \<or> fs w p \<noteq> None)"

definition is_dir :: "'s world \<Rightarrow> path \<Rightarrow> bool" where
  "is_dir w p = (p = [] \<or> fs w p = Some Dir)"

definition attempt :: "fs_op \<Rightarrow> 's world \<Rightarrow> 's world" where
  "attempt op w = w\<lparr>fs_ops := fs_ops w @ [op]\<rparr>"

text \<open>\<open>os.mkdir(p)\<close> where nothing exists at \<open>p\<close> and its parent is a directory.\<close>

definition os_mkdir :: "('f, 'p, 's) env \<Rightarrow> path \<Rightarrow> 's world \<Rightarrow> (exn + unit) \<times> 's world" where
  "os_mkdir env p w =
     (let w1 = attempt (OpMkdir p) w in
      case fault env (OpMkdir p) of
        Some x \<Rightarrow> (Inl (fault_exn x p), w1)
      | None \<Rightarrow> (Inr (), w1\<lparr>fs := (fs w1)(p \<mapsto> Dir)\<rparr>))"

text \<open>
  \<open>Path.mkdir(parents=True, exist_ok=True)\<close>, walking down from the root: a directory on
  the way is kept, a missing one is created, a file on the way stops the walk
  (\<open>FileExistsError\<close> at the path itself, \<open>NotADirectoryError\<close> above it).
\<close>

fun mkdir_from :: "('f, 'p, 's) env \<Rightarrow> path \<Rightarrow> string list \<Rightarrow> 's world \<Rightarrow> (exn + unit) \<times> 's world" where
  "mkdir_from env pre [] w = (Inr (), w)"
| "mkdir_from env pre (c # cs) w =
     (let p = pre @ [c] in
      case fs w p of
        Some Dir \<Rightarrow> mkdir_from env p cs w
      | Some (File b) \<Rightarrow>
          (if cs = [] then (Inl (os_error FileExistsError ''[Errno 17] File exists'' p), w)
           else (Inl (os_error NotADirectoryError ''[Errno 20] Not a directory'' (p @ cs)), w))
      | None \<Rightarrow>
          (case os_mkdir env p w of
             (Inl e, w1) \<Rightarrow> (Inl e, w1)
           | (Inr u, w1) \<Rightarrow> mkdir_from env p cs w1))"

definition mkdir_parents :: "('f, 'p, 's) env \<Rightarrow> path \<Rightarrow> 's world \<Rightarrow> (exn + unit) \<times> 's world" where
  "mkdir_parents env p w = mkdir_from env [] p w"

text \<open>
  \<open>open(p, "wb")\<close> followed by \<open>write(data)\<close>: opening creates or truncates the file, so a
  failure of the write leaves an empty file behind.
\<close>

definition write_file :: "('f, 'p, 's) env \<Rightarrow> path \<Rightarrow> bytes \<Rightarrow> 's world \<Rightarrow> (exn + unit) \<times> 's world" where
  "write_file env p data w =
     (let w1 = attempt (OpOpenWrite p) w in
      case fault env (OpOpenWrite p) of
        Some x \<Rightarrow> (Inl (fault_exn x p), w1)
      | None \<Rightarrow>
          if is_dir w1 p then (Inl (os_error IsADirectoryError ''[Errno 21] Is a directory'' p), w1)
          else if \<not> path_exists w1 (butlast p)
            then (Inl (os_error FileNotFoundError ''[Errno 2] No such file or directory'' p), w1)
          else if \<not> is_dir w1 (butlast p)
            then (Inl (os_error NotADirectoryError ''[Errno 20] Not a directory'' p), w1)
          else
            (let w2 = attempt (OpWrite p) (w1\<lparr>fs := (fs w1)(p \<mapsto> File [])\<rparr>) in
             case fault env (OpWrite p) of
               Some x \<Rightarrow> (Inl (fault_exn x p), w2)
             | None \<Rightarrow> (Inr (), w2\<lparr>fs := (fs w2)(p \<mapsto> File data)\<rparr>)))"

text \<open>\<open>open(p, "rb")\<close> followed by \<open>read()\<close>.\<close>

definition read_file :: "('f, 'p, 's) env \<Rightarrow> path \<Rightarrow> 's world \<Rightarrow> (exn + bytes) \<times> 's world" where
  "read_file env p w =
     (let w1 = attempt (OpOpenRead p) w in
      case fault env (OpOpenRead p) of
        Some x \<Rightarrow> (Inl (fault_exn x p), w1)
      | None \<Rightarrow>
          if is_dir w1 p then (Inl (os_error IsADirectoryError ''[Errno 21] Is a directory'' p), w1)
          else (case fs w1 p of
                  Some (File b) \<Rightarrow> (Inr b, w1)
                | _ \<Rightarrow> (Inl (os_error FileNotFoundError ''[Errno 2] No such file or directory'' p), w1)))"

text \<open>\<open>Path.unlink()\<close>.\<close>

definition unlink :: "('f, 'p, 's) env \<Rightarrow> path \<Rightarrow> 's world \<Rightarrow> (exn + unit) \<times> 's world" where
  "unlink env p w =
     (let w1 = attempt (OpUnlink p) w in
      case fault env (OpUnlink p) of
        Some x \<Rightarrow> (Inl (fault_exn x p), w1)
      | None \<Rightarrow>
          if is_dir w1 p then (Inl (os_error IsADirectoryError ''[Errno 21] Is a directory'' p), w1)
          else (case fs w1 p of
                  Some (File b) \<Rightarrow> (Inr (), w1\<lparr>fs := (fs w1)(p := None)\<rparr>)
                | _ \<Rightarrow> (Inl (os_error FileNotFoundError ''[Errno 2] No such file or directory'' p), w1)))"

subsection \<open>Logging\<close>

text \<open>
  A call of \<open>logging.debug\<close>, \<open>logging.info\<close> or \<open>logging.error\<close> is recorded with its
  level. \<open>setup_logging\<close> stores the level; \<open>emitted\<close> is what a handler configured with
  that level lets through.
\<close>

definition logging :: "log_level \<Rightarrow> string \<Rightarrow> 's world \<Rightarrow> 's world" where
  "logging lvl msg w = w\<lparr>logs := logs w @ [(lvl, msg)]\<rparr>"




subsection \<open>\<open>process_gif\<close>\<close>

text \<open>
  Line 59: \<open>session = new_session(model_name) if model_name else new_session()\<close>. The test
  is Python's truth value, so both \<open>None\<close> and the empty string take the second branch.
\<close>

definition session_arg :: "string option \<Rightarrow> string option" where
  "session_arg model_name =
     (case model_name of
        None \<Rightarrow> None
      | Some m \<Rightarrow> if m = [] then None else Some m)"

definition create_session :: "('f, 'p, 's) env \<Rightarrow> string option \<Rightarrow> 's world \<Rightarrow> (exn + 's) \<times> 's world" where
  "create_session env model_name w =
     (let a = session_arg model_name in
      (new_session env a, w\<lparr>calls := calls w @ [CallNewSession a]\<rparr>))"

text \<open>Lines 82 to 86: the call of \<open>remove\<close> with the shared session.\<close>

definition call_remove :: "('f, 'p, 's) env \<Rightarrow> bytes \<Rightarrow> 's \<Rightarrow> 's world \<Rightarrow> (exn + bytes) \<times> 's world" where
  "call_remove env data session w =
     (remove_bg env data session, w\<lparr>calls := calls w @ [CallRemove data session]\<rparr>)"

text \<open>Line 62: \<open>Image.open(input_path)\<close> reads the file and decodes it.\<close>

definition open_image :: "('f, 'p, 's) env \<Rightarrow> path \<Rightarrow> 's world \<Rightarrow> (exn + 'f image) \<times> 's world" where
  "open_image env input_path w =
     (case read_file env input_path w of
        (Inl e, w1) \<Rightarrow> (Inl e, w1)
      | (Inr b, w1) \<Rightarrow> (image_open env b, w1))"

text \<open>
  Lines 78 to 90: the body of the inner \<open>try\<close>. \<open>frame.save(temp_frame_path, "PNG")\<close> is
  opening the file for writing and writing the encoded frame; what the image library
  does with a partly written file when the write fails is not modelled.
\<close>

definition try_body ::
  "('f, 'p, 's) env \<Rightarrow> 's \<Rightarrow> 'p \<Rightarrow> path \<Rightarrow> path \<Rightarrow> 's world \<Rightarrow> (exn + unit) \<times> 's world" where
  "try_body env session frame temp_frame_path output_frame_path w =
     (case write_file env temp_frame_path (png_encode env frame) w of
        (Inl e, w1) \<Rightarrow> (Inl e, w1)
      | (Inr u, w1) \<Rightarrow>
          (case read_file env temp_frame_path w1 of
             (Inl e, w2) \<Rightarrow> (Inl e, w2)
           | (Inr input_data, w2) \<Rightarrow>
               (case call_remove env input_data session w2 of
                  (Inl e, w3) \<Rightarrow> (Inl e, w3)
                | (Inr output_data, w3) \<Rightarrow> write_file env output_frame_path output_data w3)))"

text \<open>
  Lines 92 to 96: the \<open>finally\<close> block. The answer is the exception that leaves the
  block, if any: \<open>contextlib.suppress(FileNotFoundError)\<close> swallows that class only.
\<close>

definition finally_block ::
  "('f, 'p, 's) env \<Rightarrow> bool \<Rightarrow> path \<Rightarrow> 's world \<Rightarrow> exn option \<times> 's world" where
  "finally_block env keep_temp_files temp_frame_path w =
     (if \<not> keep_temp_files then
        (case unlink env temp_frame_path w of
           (Inl e, w1) \<Rightarrow> if exn_class_of e = FileNotFoundError then (None, w1) else (Some e, w1)
         | (Inr u, w1) \<Rightarrow> (None, w1))
      else (None, w))"

text \<open>
  Lines 77 to 96: \<open>try ... finally\<close>. The \<open>finally\<close> block runs whatever the body did; an
  exception leaving it replaces the one the body raised, otherwise the body's outcome
  stands.
\<close>

definition process_frame ::
  "('f, 'p, 's) env \<Rightarrow> bool \<Rightarrow> 's \<Rightarrow> 'p \<Rightarrow> path \<Rightarrow> path \<Rightarrow> 's world \<Rightarrow> (exn + unit) \<times> 's world" where
  "process_frame env keep_temp_files session frame temp_frame_path output_frame_path w =
     (case try_body env session frame temp_frame_path output_frame_path w of
        (r, w1) \<Rightarrow>
          (case finally_block env keep_temp_files temp_frame_path w1 of
             (Some e, w2) \<Rightarrow> (Inl e, w2)
           | (None, w2) \<Rightarrow> (r, w2)))"

text \<open>
  Lines 66 to 96: the loop over the frames. \<open>frame_count\<close> is the counter before the
  iteration; the answer is the counter after the last frame.
\<close>

fun frame_loop ::
  "('f, 'p, 's) env \<Rightarrow> path \<Rightarrow> bool \<Rightarrow> 's \<Rightarrow> nat \<Rightarrow> 'f list \<Rightarrow> 's world \<Rightarrow> (exn + nat) \<times> 's world" where
  "frame_loop env output_path keep_temp_files session frame_count [] w = (Inr frame_count, w)"
| "frame_loop env output_path keep_temp_files session frame_count (frame # rest) w =
     (let frame_count = frame_count + 1;
          w1 = logging DEBUG (''Processing frame '' @ str_nat frame_count) w
      in case convert_rgba env frame of
           Inl e \<Rightarrow> (Inl e, w1)
         | Inr frame \<Rightarrow>
             (let temp_frame_path = output_path @ [temp_name frame_count];
                  output_frame_path = output_path @ [output_name frame_count]
              in case process_frame env keep_temp_files session frame
                        temp_frame_path output_frame_path w1 of
                   (Inl e, w2) \<Rightarrow> (Inl e, w2)
                 | (Inr u, w2) \<Rightarrow>
                     frame_loop env output_path keep_temp_files session frame_count rest w2))"

text \<open>Lines 62 to 99: the body of the outer \<open>try\<close>.\<close>

definition try_block ::
  "('f, 'p, 's) env \<Rightarrow> path \<Rightarrow> path \<Rightarrow> bool \<Rightarrow> 's \<Rightarrow> 's world \<Rightarrow> (exn + path) \<times> 's world" where
  "try_block env input_path output_path keep_temp_files session w =
     (case open_image env input_path w of
        (Inl e, w1) \<Rightarrow> (Inl e, w1)
      | (Inr gif, w1) \<Rightarrow>
          (let duration = (case info_duration gif of Some d \<Rightarrow> d | None \<Rightarrow> 100) in
           case frame_loop env output_path keep_temp_files session 0 (frames gif) w1 of
             (Inl e, w2) \<Rightarrow> (Inl e, w2)
           | (Inr frame_count, w2) \<Rightarrow>
               (Inr output_path,
                logging INFO (''Successfully processed '' @ str_nat frame_count @ '' frames'') w2)))"

text \<open>Lines 17 to 103.\<close>

definition process_gif ::
  "('f, 'p, 's) env \<Rightarrow> path \<Rightarrow> path \<Rightarrow> bool \<Rightarrow> string option \<Rightarrow> 's world \<Rightarrow> (exn + path) \<times> 's world" where
  "process_gif env input_gif_path output_folder keep_temp_files model_name w =
     (let input_path = input_gif_path; output_path = output_folder in
      if \<not> path_exists w input_path
        then (Inl (Exn FileNotFoundError (''Input file not found: '' @ path_str input_path)), w)
      else if lower (suffix input_path) \<noteq> ''.gif''
        then (Inl (Exn ValueError (''Input file must be a GIF, got: '' @ suffix input_path)), w)
      else
        (case mkdir_parents env output_path w of
           (Inl e, w1) \<Rightarrow> (Inl e, w1)
         | (Inr u, w1) \<Rightarrow>
             (let w2 = logging INFO (''Processing GIF: '' @ path_str input_path) w1;
                  w3 = logging INFO (''Output directory: '' @ path_str output_path) w2
              in case create_session env model_name w3 of
                   (Inl e, w4) \<Rightarrow> (Inl e, w4)
                 | (Inr session, w4) \<Rightarrow>
                     (case try_block env input_path output_path keep_temp_files session w4 of
                        (Inl e, w5) \<Rightarrow>
                          (Inl e, logging ERROR (''Error processing GIF: '' @ exn_str e) w5)
                      | (Inr p, w5) \<Rightarrow> (Inr p, w5)))))"

subsection \<open>The command line\<close>

record args =
  input_gif :: path
  output_dir :: path
  keep_temp :: bool
  model :: "string option"
  debug :: bool


subsection \<open>Notions used to state the properties\<close>

text \<open>The names of the entries directly inside directory \<open>d\<close>.\<close>

definition dir_names :: "'s world \<Rightarrow> path \<Rightarrow> string set" where
  "dir_names w d = {n. fs w (d @ [n]) \<noteq> None}"

text \<open>The frames the image library decodes from the file at \<open>input_path\<close>, and their number.\<close>

definition decoded_frames :: "('f, 'p, 's) env \<Rightarrow> 's world \<Rightarrow> path \<Rightarrow> 'f list" where
  "decoded_frames env w input_path =
     (case fs w input_path of
        Some (File b) \<Rightarrow> (case image_open env b of Inr gif \<Rightarrow> frames gif | Inl e \<Rightarrow> [])
      | _ \<Rightarrow> [])"

definition frame_total :: "('f, 'p, 's) env \<Rightarrow> 's world \<Rightarrow> path \<Rightarrow> nat" where
  "frame_total env w input_path = length (decoded_frames env w input_path)"




text \<open>The world in which the session is created, and the one the outer \<open>try\<close> starts in.\<close>

definition announced :: "path \<Rightarrow> path \<Rightarrow> 's world \<Rightarrow> 's world" where
  "announced input_path output_path w =
     logging INFO (''Output directory: '' @ path_str output_path)
       (logging INFO (''Processing GIF: '' @ path_str input_path) w)"

definition with_session :: "string option \<Rightarrow> 's world \<Rightarrow> 's world" where
  "with_session model_name w = w\<lparr>calls := calls w @ [CallNewSession (session_arg model_name)]\<rparr>"

subsection \<open>Concrete runs\<close>

text \<open>
  A three-frame animation. Frames, pixel buffers and sessions are numbers; the decoder
  knows one file content; the default session is \<open>0\<close>, the session of model \<open>u2netp\<close>
  is \<open>1\<close>, any other model name is refused.
\<close>

definition gif_bytes :: bytes where
  "gif_bytes = [71, 73, 70, 56, 57, 97]"

definition sample_env :: "(nat, nat, nat) env" where
  "sample_env =
     \<lparr>new_session = (\<lambda>m. case m of
          None \<Rightarrow> Inr 0
        | Some n \<Rightarrow> if n = ''u2netp'' then Inr 1
                    else Inl (Exn ValueError (''No session class found for model: '' @ n))),
      image_open = (\<lambda>b. if b = gif_bytes then Inr \<lparr>info_duration = Some 40, frames = [1, 2, 3]\<rparr>
                         else Inl (Exn (OtherError ''UnidentifiedImageError'') ''cannot identify image file'')),
      convert_rgba = (\<lambda>f. Inr f),
      png_encode = (\<lambda>p. [137, 80, 78, 71, of_nat p]),
      remove_bg = (\<lambda>d s. Inr (d @ [of_nat s])),
      fault = (\<lambda>op. None)\<rparr>"

definition empty_world :: "nat world" where
  "empty_world = \<lparr>fs = Map.empty, logs = [], log_threshold = WARNING, fs_ops = [], calls = []\<rparr>"

text \<open>\<open>sample.gif\<close> in the current directory, nothing else.\<close>

definition sample_world :: "nat world" where
  "sample_world = empty_world\<lparr>fs := Map.empty([''sample.gif''] \<mapsto> File gif_bytes)\<rparr>"

text \<open>The same, with an output directory that already holds a file.\<close>

definition used_world :: "nat world" where
  "used_world = empty_world\<lparr>fs :=
     Map.empty([''sample.gif''] \<mapsto> File gif_bytes, [''out''] \<mapsto> Dir,
       [''out'', ''notes.txt''] \<mapsto> File [104, 105])\<rparr>"


text \<open>The animation lies in the directory that is also given as output directory.\<close>

definition shared_world :: "nat world" where
  "shared_world = empty_world\<lparr>fs :=
     Map.empty([''out''] \<mapsto> Dir, [''out'', ''sample.gif''] \<mapsto> File gif_bytes)\<rparr>"







section \<open>Properties\<close>

subsection \<open>File names\<close>

lemma digit_val_digit_char: "d < 10 \<Longrightarrow> digit_val (digit_char d) = d"
proof -
  assume "d < 10"
  then have "d \<in> {0, 1, 2, 3, 4, 5, 6, 7, 8, 9}" by auto
  then show ?thesis
    by (auto simp: digit_val_def digit_char_def)
qed

lemma digit_char_is_digit: "d < 10 \<Longrightarrow> digit_char d \<in> set ''0123456789''"
  unfolding digit_char_def by (rule nth_mem) simp

lemma nat_of_str_snoc: "nat_of_str (s @ [c]) = 10 * nat_of_str s + digit_val c"
  by (simp add: nat_of_str_def)

lemma nat_of_str_str_nat: "nat_of_str (str_nat n) = n"
proof (induction n rule: str_nat.induct)
  case (1 n)
  show ?case
  proof (cases "n < 10")
    case True
    then show ?thesis
      by (subst str_nat.simps) (simp add: nat_of_str_def digit_val_digit_char)
  next
    case False
    with 1 have "nat_of_str (str_nat (n div 10)) = n div 10" by simp
    with False show ?thesis
      by (subst str_nat.simps) (simp add: nat_of_str_snoc digit_val_digit_char)
  qed
qed

lemma foldl_zeros: "foldl (\<lambda>a c. 10 * a + digit_val c) 0 (replicate k (CHR ''0'')) = 0"
  by (induction k) (simp_all add: digit_val_def)

lemma nat_of_str_fmt_03d: "nat_of_str (fmt_03d n) = n"
  using nat_of_str_str_nat [of n]
  by (simp add: fmt_03d_def nat_of_str_def Let_def foldl_zeros)

lemma fmt_03d_inj: "fmt_03d i = fmt_03d j \<Longrightarrow> i = j"
  by (metis nat_of_str_fmt_03d)

lemma str_nat_digits: "set (str_nat n) \<subseteq> set ''0123456789''"
proof (induction n rule: str_nat.induct)
  case (1 n)
  show ?case
  proof (cases "n < 10")
    case True
    then show ?thesis
      using digit_char_is_digit [of n] by (subst str_nat.simps) simp
  next
    case False
    with 1 have "set (str_nat (n div 10)) \<subseteq> set ''0123456789''" by simp
    moreover have "digit_char (n mod 10) \<in> set ''0123456789''"
      by (rule digit_char_is_digit) simp
    ultimately show ?thesis
      using False by (subst str_nat.simps) simp
  qed
qed

lemma fmt_03d_digits: "set (fmt_03d n) \<subseteq> set ''0123456789''"
  using str_nat_digits [of n] by (auto simp: fmt_03d_def Let_def)

lemma temp_name_inj: "temp_name i = temp_name j \<Longrightarrow> i = j"
  by (simp add: temp_name_def fmt_03d_inj)

lemma output_name_inj: "output_name i = output_name j \<Longrightarrow> i = j"
  by (simp add: output_name_def fmt_03d_inj)

lemma temp_name_neq_output_name: "temp_name i \<noteq> output_name j"
proof
  assume "temp_name i = output_name j"
  then have "fmt_03d i @ ''.png'' = (fmt_03d j @ ''_bg_removed'') @ ''.png''"
    by (simp add: temp_name_def output_name_def)
  then have "fmt_03d i = fmt_03d j @ ''_bg_removed''"
    by (simp only: append_same_eq)
  then have "CHR ''_'' \<in> set (fmt_03d i)" by simp
  with fmt_03d_digits [of i] show False by auto
qed



lemma lower_char_g: "lower_char c = CHR ''f'' \<Longrightarrow> c \<noteq> CHR ''g''"
  by (auto simp: lower_char_def)

lemma gif_suffix_last:
  assumes "lower (suffix p) = ''.gif''"
  shows "p \<noteq> [] \<and> last (last p) \<noteq> CHR ''g''"
proof -
  from assms have ne: "suffix p \<noteq> []" by (auto simp: lower_def)
  then have p: "p \<noteq> []"
    by (auto simp: suffix_def path_name_def)
  from ne obtain i where i: "suffix p = drop i (last p)" "i < length (last p) - 1"
    using p by (auto simp: suffix_def path_name_def Let_def split: option.splits if_splits)
  then have "last (suffix p) = last (last p)" by simp
  moreover have "lower_char (last (suffix p)) = CHR ''f''"
  proof -
    have "last (lower (suffix p)) = lower_char (last (suffix p))"
      using ne by (simp add: lower_def last_map)
    with assms show ?thesis by simp
  qed
  ultimately show ?thesis using p lower_char_g by metis
qed



lemma fault_exn_not_fnf: "exn_class_of (fault_exn x p) \<noteq> FileNotFoundError"
  by (cases x) (simp_all add: os_error_def)

subsection \<open>What each operation leaves of the filesystem\<close>

lemma logging_fs: "fs (logging l m w) = fs w"
  by (simp add: logging_def)

lemma os_mkdir_fs:
  "os_mkdir env q w = (r, w') \<Longrightarrow> fs w p = Some e \<Longrightarrow> fs w q = None \<Longrightarrow> fs w' p = Some e"
  by (auto simp: os_mkdir_def attempt_def Let_def split: option.splits)

lemma os_mkdir_other:
  "os_mkdir env q w = (r, w') \<Longrightarrow> p \<noteq> q \<Longrightarrow> fs w' p = fs w p"
  by (auto simp: os_mkdir_def attempt_def Let_def split: option.splits)

lemma mkdir_from_keeps:
  "mkdir_from env pre cs w = (r, w') \<Longrightarrow> fs w p = Some e \<Longrightarrow> fs w' p = Some e"
proof (induction cs arbitrary: pre w)
  case Nil
  then show ?case by simp
next
  case (Cons c cs)
  show ?case
  proof (cases "fs w (pre @ [c])")
    case None
    obtain r1 w1 where m: "os_mkdir env (pre @ [c]) w = (r1, w1)" by force
    with None Cons.prems have k: "fs w1 p = Some e" by (auto dest: os_mkdir_fs)
    show ?thesis
    proof (cases r1)
      case (Inl a)
      with Cons.prems None m k show ?thesis by (simp add: Let_def)
    next
      case (Inr b)
      with Cons.prems None m have "mkdir_from env (pre @ [c]) cs w1 = (r, w')"
        by (simp add: Let_def)
      then show ?thesis using k by (rule Cons.IH)
    qed
  next
    case (Some a)
    show ?thesis
    proof (cases a)
      case Dir
      with Some Cons.prems have "mkdir_from env (pre @ [c]) cs w = (r, w')"
        by (simp add: Let_def)
      then show ?thesis using Cons.prems(2) by (rule Cons.IH)
    next
      case (File b)
      with Some Cons.prems show ?thesis by (auto simp: Let_def split: if_splits)
    qed
  qed
qed

lemma mkdir_from_deep:
  "mkdir_from env pre cs w = (r, w') \<Longrightarrow> length pre + length cs < length p \<Longrightarrow> fs w' p = fs w p"
proof (induction cs arbitrary: pre w)
  case Nil
  then show ?case by simp
next
  case (Cons c cs)
  from Cons.prems(2) have ne: "p \<noteq> pre @ [c]" by auto
  from Cons.prems(2) have len: "length (pre @ [c]) + length cs < length p" by simp
  show ?case
  proof (cases "fs w (pre @ [c])")
    case None
    obtain r1 w1 where m: "os_mkdir env (pre @ [c]) w = (r1, w1)" by force
    then have k: "fs w1 p = fs w p" using ne by (rule os_mkdir_other)
    show ?thesis
    proof (cases r1)
      case (Inl a)
      with Cons.prems None m k show ?thesis by (simp add: Let_def)
    next
      case (Inr b)
      with Cons.prems None m have "mkdir_from env (pre @ [c]) cs w1 = (r, w')"
        by (simp add: Let_def)
      then have "fs w' p = fs w1 p" using len by (rule Cons.IH)
      with k show ?thesis by simp
    qed
  next
    case (Some a)
    show ?thesis
    proof (cases a)
      case Dir
      with Some Cons.prems have "mkdir_from env (pre @ [c]) cs w = (r, w')"
        by (simp add: Let_def)
      then show ?thesis using len by (rule Cons.IH)
    next
      case (File b)
      with Some Cons.prems show ?thesis by (auto simp: Let_def split: if_splits)
    qed
  qed
qed

lemma mkdir_from_isdir:
  "mkdir_from env pre cs w = (Inr u, w') \<Longrightarrow> cs \<noteq> [] \<Longrightarrow> fs w' (pre @ cs) = Some Dir"
proof (induction cs arbitrary: pre w)
  case Nil
  then show ?case by simp
next
  case (Cons c cs)
  show ?case
  proof (cases "fs w (pre @ [c])")
    case None
    obtain r1 w1 where m: "os_mkdir env (pre @ [c]) w = (r1, w1)" by force
    show ?thesis
    proof (cases r1)
      case (Inl a)
      with Cons.prems None m show ?thesis by (simp add: Let_def)
    next
      case (Inr b)
      with Cons.prems None m have rest: "mkdir_from env (pre @ [c]) cs w1 = (Inr u, w')"
        by (simp add: Let_def)
      show ?thesis
      proof (cases "cs = []")
        case True
        with rest m Inr show ?thesis
          by (auto simp: os_mkdir_def attempt_def Let_def split: option.splits)
      next
        case False
        with rest have "fs w' ((pre @ [c]) @ cs) = Some Dir" by (rule Cons.IH)
        then show ?thesis by simp
      qed
    qed
  next
    case (Some a)
    show ?thesis
    proof (cases a)
      case Dir
      with Some Cons.prems have rest: "mkdir_from env (pre @ [c]) cs w = (Inr u, w')"
        by (simp add: Let_def)
      show ?thesis
      proof (cases "cs = []")
        case True
        with rest Some Dir show ?thesis by simp
      next
        case False
        with rest have "fs w' ((pre @ [c]) @ cs) = Some Dir" by (rule Cons.IH)
        then show ?thesis by simp
      qed
    next
      case (File b)
      with Some Cons.prems show ?thesis by (auto simp: Let_def split: if_splits)
    qed
  qed
qed

lemma write_file_other:
  "write_file env q d w = (r, w') \<Longrightarrow> p \<noteq> q \<Longrightarrow> fs w' p = fs w p"
  by (auto simp: write_file_def attempt_def Let_def split: option.splits if_splits)

lemma write_file_ok:
  "write_file env q d w = (Inr u, w') \<Longrightarrow> fs w' q = Some (File d)"
  by (auto simp: write_file_def attempt_def Let_def split: option.splits if_splits)

lemma read_file_world:
  "read_file env q w = (r, w') \<Longrightarrow> w' = attempt (OpOpenRead q) w"
  by (auto simp: read_file_def Let_def split: option.splits if_splits entry.splits)

lemma read_file_fs: "read_file env q w = (r, w') \<Longrightarrow> fs w' = fs w"
  by (auto dest: read_file_world simp: attempt_def)

lemma read_file_ok:
  "read_file env q w = (Inr b, w') \<Longrightarrow> fs w q = Some (File b)"
  by (auto simp: read_file_def attempt_def Let_def split: option.splits if_splits entry.splits)

lemma unlink_other:
  "unlink env q w = (r, w') \<Longrightarrow> p \<noteq> q \<Longrightarrow> fs w' p = fs w p"
  by (auto simp: unlink_def attempt_def Let_def split: option.splits if_splits entry.splits)

lemma unlink_ok:
  "unlink env q w = (Inr u, w') \<Longrightarrow> fs w' q = None"
  by (auto simp: unlink_def attempt_def Let_def split: option.splits if_splits entry.splits)

lemma unlink_fnf:
  "unlink env q w = (Inl e, w') \<Longrightarrow> exn_class_of e = FileNotFoundError \<Longrightarrow> fs w q = None \<and> fs w' = fs w"
  using fault_exn_not_fnf
  by (auto simp: unlink_def attempt_def is_dir_def os_error_def Let_def
           split: option.splits if_splits entry.splits)

lemma call_remove_fs: "call_remove env d s w = (r, w') \<Longrightarrow> fs w' = fs w"
  by (auto simp: call_remove_def)

lemma create_session_fs: "create_session env m w = (r, w') \<Longrightarrow> fs w' = fs w"
  by (auto simp: create_session_def Let_def)

subsection \<open>One frame\<close>

lemma try_body_other:
  assumes "try_body env s f t o' w = (r, w')" and "p \<noteq> t" and "p \<noteq> o'"
  shows "fs w' p = fs w p"
proof -
  obtain r1 w1 where a: "write_file env t (png_encode env f) w = (r1, w1)" by force
  then have f1: "fs w1 p = fs w p" using assms(2) by (rule write_file_other)
  obtain r2 w2 where b: "read_file env t w1 = (r2, w2)" by force
  then have f2: "fs w2 = fs w1" by (rule read_file_fs)
  show ?thesis
  proof (cases r1)
    case (Inl e)
    with assms(1) a f1 show ?thesis by (simp add: try_body_def)
  next
    case r1: (Inr u)
    show ?thesis
    proof (cases r2)
      case (Inl e)
      with assms(1) a b r1 f1 f2 show ?thesis by (simp add: try_body_def)
    next
      case r2: (Inr d)
      obtain r3 w3 where c: "call_remove env d s w2 = (r3, w3)" by force
      then have f3: "fs w3 = fs w2" by (rule call_remove_fs)
      show ?thesis
      proof (cases r3)
        case (Inl e)
        with assms(1) a b c r1 r2 f1 f2 f3 show ?thesis by (simp add: try_body_def)
      next
        case (Inr od)
        with assms(1) a b c r1 r2 have "write_file env o' od w3 = (r, w')"
          by (simp add: try_body_def)
        then have "fs w' p = fs w3 p" using assms(3) by (rule write_file_other)
        with f1 f2 f3 show ?thesis by simp
      qed
    qed
  qed
qed

lemma try_body_ok:
  assumes "try_body env s f t o' w = (Inr u, w')" and "t \<noteq> o'"
  shows "fs w' t = Some (File (png_encode env f))
         \<and> (\<exists>d. remove_bg env (png_encode env f) s = Inr d \<and> fs w' o' = Some (File d))"
proof -
  obtain r1 w1 where a: "write_file env t (png_encode env f) w = (r1, w1)" by force
  with assms(1) obtain u1 where r1: "r1 = Inr u1"
    by (cases r1) (simp_all add: try_body_def)
  from a r1 have f1: "fs w1 t = Some (File (png_encode env f))" by (auto dest: write_file_ok)
  obtain r2 w2 where b: "read_file env t w1 = (r2, w2)" by force
  with assms(1) a r1 obtain d where r2: "r2 = Inr d"
    by (cases r2) (simp_all add: try_body_def)
  from b have f2: "fs w2 = fs w1" by (rule read_file_fs)
  from b r2 f1 have d: "d = png_encode env f" by (auto dest: read_file_ok)
  obtain r3 w3 where c: "call_remove env d s w2 = (r3, w3)" by force
  with assms(1) a b r1 r2 obtain od where r3: "r3 = Inr od"
    by (cases r3) (simp_all add: try_body_def)
  from c have f3: "fs w3 = fs w2" by (rule call_remove_fs)
  from c r3 d have od: "remove_bg env (png_encode env f) s = Inr od"
    by (simp add: call_remove_def)
  from assms(1) a b c r1 r2 r3 have e: "write_file env o' od w3 = (Inr u, w')"
    by (simp add: try_body_def)
  then have "fs w' o' = Some (File od)" by (rule write_file_ok)
  moreover from e assms(2) have "fs w' t = fs w3 t" by (rule write_file_other)
  ultimately show ?thesis using f1 f2 f3 od by simp
qed

lemma finally_block_other:
  "finally_block env keep t w = (c, w') \<Longrightarrow> p \<noteq> t \<Longrightarrow> fs w' p = fs w p"
  by (auto simp: finally_block_def split: if_splits prod.splits sum.splits dest: unlink_other)

lemma finally_block_keep: "finally_block env True t w = (None, w)"
  by (simp add: finally_block_def)

lemma finally_block_removed:
  "finally_block env False t w = (None, w') \<Longrightarrow> fs w' t = None"
  by (auto simp: finally_block_def split: if_splits prod.splits sum.splits
           dest: unlink_ok unlink_fnf)

lemma process_frame_other:
  assumes "process_frame env keep s f t o' w = (r, w')" and "p \<noteq> t" and "p \<noteq> o'"
  shows "fs w' p = fs w p"
proof -
  obtain rb w1 where a: "try_body env s f t o' w = (rb, w1)" by force
  then have f1: "fs w1 p = fs w p" using assms(2,3) by (rule try_body_other)
  obtain c w2 where b: "finally_block env keep t w1 = (c, w2)" by force
  then have f2: "fs w2 p = fs w1 p" using assms(2) by (rule finally_block_other)
  from assms(1) a b have "w' = w2"
    by (auto simp: process_frame_def split: option.splits)
  with f1 f2 show ?thesis by simp
qed

lemma process_frame_ok:
  assumes "process_frame env keep s f t o' w = (Inr u, w')" and "t \<noteq> o'"
  shows "(\<exists>d. remove_bg env (png_encode env f) s = Inr d \<and> fs w' o' = Some (File d))
         \<and> fs w' t = (if keep then Some (File (png_encode env f)) else None)"
proof -
  obtain rb w1 where a: "try_body env s f t o' w = (rb, w1)" by force
  obtain c w2 where b: "finally_block env keep t w1 = (c, w2)" by force
  from assms(1) a b have c: "c = None" and w: "w' = w2" and rb: "rb = Inr u"
    by (auto simp: process_frame_def split: option.splits)
  from a rb assms(2) have body: "fs w1 t = Some (File (png_encode env f))"
      "\<exists>d. remove_bg env (png_encode env f) s = Inr d \<and> fs w1 o' = Some (File d)"
    by (auto dest: try_body_ok)
  from b assms(2) have "fs w2 o' = fs w1 o'" by (auto dest: finally_block_other)
  with body(2) w have out: "\<exists>d. remove_bg env (png_encode env f) s = Inr d \<and> fs w' o' = Some (File d)"
    by simp
  show ?thesis
  proof (cases keep)
    case True
    with b have "w2 = w1" by (simp add: finally_block_keep)
    with True w body(1) out show ?thesis by simp
  next
    case False
    with b c have "fs w2 t = None" by (auto dest: finally_block_removed)
    with False w out show ?thesis by simp
  qed
qed

subsection \<open>The loop\<close>

lemma artifact_paths_differ: "out @ [temp_name i] \<noteq> out @ [output_name j]"
  by (simp add: temp_name_neq_output_name)

lemma frame_loop_other:
  assumes "frame_loop env out keep s k fr w = (r, w')"
    and "\<forall>i. k < i \<and> i \<le> k + length fr \<longrightarrow> p \<noteq> out @ [temp_name i] \<and> p \<noteq> out @ [output_name i]"
  shows "fs w' p = fs w p"
  using assms
proof (induction fr arbitrary: k w)
  case Nil
  then show ?case by simp
next
  case (Cons f fr)
  let ?w1 = "logging DEBUG (''Processing frame '' @ str_nat (k + 1)) w"
  show ?case
  proof (cases "convert_rgba env f")
    case (Inl e)
    with Cons.prems(1) show ?thesis by (auto simp: Let_def logging_fs)
  next
    case (Inr px)
    obtain r1 w2 where a: "process_frame env keep s px (out @ [temp_name (k + 1)])
        (out @ [output_name (k + 1)]) ?w1 = (r1, w2)" by force
    from Cons.prems(2) have "p \<noteq> out @ [temp_name (k + 1)]" "p \<noteq> out @ [output_name (k + 1)]"
      by auto
    with a have "fs w2 p = fs ?w1 p" by (rule process_frame_other)
    then have f1: "fs w2 p = fs w p" by (simp add: logging_fs)
    show ?thesis
    proof (cases r1)
      case (Inl e)
      with Cons.prems(1) Inr a f1 show ?thesis by (simp add: Let_def)
    next
      case r1: (Inr u)
      with Cons.prems(1) Inr a have rest: "frame_loop env out keep s (k + 1) fr w2 = (r, w')"
        by (simp add: Let_def)
      from Cons.prems(2) have "\<forall>i. k + 1 < i \<and> i \<le> (k + 1) + length fr \<longrightarrow>
          p \<noteq> out @ [temp_name i] \<and> p \<noteq> out @ [output_name i]" by auto
      with rest have "fs w' p = fs w2 p" by (rule Cons.IH)
      with f1 show ?thesis by simp
    qed
  qed
qed

lemma frame_loop_count:
  "frame_loop env out keep s k fr w = (Inr c, w') \<Longrightarrow> c = k + length fr"
proof (induction fr arbitrary: k w)
  case Nil
  then show ?case by simp
next
  case (Cons f fr)
  let ?w1 = "logging DEBUG (''Processing frame '' @ str_nat (k + 1)) w"
  from Cons.prems(1) obtain px where px: "convert_rgba env f = Inr px"
    by (cases "convert_rgba env f") (simp_all add: Let_def)
  obtain r1 w2 where a: "process_frame env keep s px (out @ [temp_name (k + 1)])
      (out @ [output_name (k + 1)]) ?w1 = (r1, w2)" by force
  with Cons.prems(1) px obtain u where r1: "r1 = Inr u"
    by (cases r1) (simp_all add: Let_def)
  with Cons.prems(1) px a have "frame_loop env out keep s (k + 1) fr w2 = (Inr c, w')"
    by (simp add: Let_def)
  then have "c = (k + 1) + length fr" by (rule Cons.IH)
  then show ?case by simp
qed

lemma frame_loop_ok:
  assumes "frame_loop env out keep s k fr w = (Inr c, w')"
    and "k < i" and "i \<le> k + length fr"
  shows "(\<exists>px d. convert_rgba env (fr ! (i - k - 1)) = Inr px
            \<and> remove_bg env (png_encode env px) s = Inr d
            \<and> fs w' (out @ [output_name i]) = Some (File d)
            \<and> fs w' (out @ [temp_name i]) = (if keep then Some (File (png_encode env px)) else None))"
  using assms
proof (induction fr arbitrary: k w)
  case Nil
  then show ?case by simp
next
  case (Cons f fr)
  let ?w1 = "logging DEBUG (''Processing frame '' @ str_nat (k + 1)) w"
  from Cons.prems(1) obtain px where px: "convert_rgba env f = Inr px"
    by (cases "convert_rgba env f") (simp_all add: Let_def)
  obtain r1 w2 where a: "process_frame env keep s px (out @ [temp_name (k + 1)])
      (out @ [output_name (k + 1)]) ?w1 = (r1, w2)" by force
  with Cons.prems(1) px obtain u where r1: "r1 = Inr u"
    by (cases r1) (simp_all add: Let_def)
  with Cons.prems(1) px a have rest: "frame_loop env out keep s (k + 1) fr w2 = (Inr c, w')"
    by (simp add: Let_def)
  show ?case
  proof (cases "i = k + 1")
    case True
    from a r1 have here: "(\<exists>d. remove_bg env (png_encode env px) s = Inr d
          \<and> fs w2 (out @ [output_name (k + 1)]) = Some (File d))
        \<and> fs w2 (out @ [temp_name (k + 1)]) = (if keep then Some (File (png_encode env px)) else None)"
      using artifact_paths_differ by (auto dest!: process_frame_ok)
    have later: "\<forall>j. k + 1 < j \<and> j \<le> (k + 1) + length fr \<longrightarrow>
        out @ [q (k + 1)] \<noteq> out @ [temp_name j] \<and> out @ [q (k + 1)] \<noteq> out @ [output_name j]"
      if "q = temp_name \<or> q = output_name" for q
      using that temp_name_inj output_name_inj temp_name_neq_output_name
      by (metis append1_eq_conv less_irrefl)
    have "fs w' (out @ [temp_name (k + 1)]) = fs w2 (out @ [temp_name (k + 1)])"
      by (rule frame_loop_other [OF rest]) (use later [of temp_name] in simp)
    moreover have "fs w' (out @ [output_name (k + 1)]) = fs w2 (out @ [output_name (k + 1)])"
      by (rule frame_loop_other [OF rest]) (use later [of output_name] in simp)
    ultimately show ?thesis using here px True by simp
  next
    case False
    with Cons.prems(2,3) have "k + 1 < i" "i \<le> (k + 1) + length fr" by auto
    with rest have "\<exists>px d. convert_rgba env (fr ! (i - (k + 1) - 1)) = Inr px
            \<and> remove_bg env (png_encode env px) s = Inr d
            \<and> fs w' (out @ [output_name i]) = Some (File d)
            \<and> fs w' (out @ [temp_name i]) = (if keep then Some (File (png_encode env px)) else None)"
      by (rule Cons.IH)
    moreover from \<open>k + 1 < i\<close> have "(f # fr) ! (i - k - 1) = fr ! (i - (k + 1) - 1)"
      by (simp add: nth_Cons')
    ultimately show ?thesis by simp
  qed
qed

section \<open>The claims\<close>

subsection \<open>Validation\<close>






subsection \<open>The return value\<close>

text \<open>
  C8. A run of \<open>process_gif\<close> that ends without an exception returns the output
  directory path it was given as \<open>output_folder\<close>.
\<close>

theorem process_gif_returns_output_folder:
  "process_gif env input_gif_path output_folder keep_temp_files model_name w = (Inr p, w') \<Longrightarrow>
   p = output_folder"
  by (auto simp: process_gif_def try_block_def Let_def split: if_splits prod.splits sum.splits)

theorem process_gif_returns_output_folder_witness:
  "\<exists>w'. process_gif sample_env [''sample.gif''] [''out''] False None sample_world
     = (Inr [''out''], w')"
proof -
  obtain r w' where run:
    "process_gif sample_env [''sample.gif''] [''out''] False None sample_world = (r, w')"
    by force
  have "\<not> isl (fst (process_gif sample_env [''sample.gif''] [''out''] False None sample_world))"
    by code_simp
  with run obtain p where "r = Inr p" by (cases r) simp_all
  with run process_gif_returns_output_folder [of sample_env "[''sample.gif'']" "[''out'']" False None
      sample_world p w']
  show ?thesis by simp
qed

subsection \<open>The decoder is used in one place\<close>

lemma os_mkdir_decoder: "os_mkdir (env\<lparr>image_open := g\<rparr>) p w = os_mkdir env p w"
  by (simp add: os_mkdir_def)

lemma mkdir_from_decoder:
  "mkdir_from (env\<lparr>image_open := g\<rparr>) pre cs w = mkdir_from env pre cs w"
  by (induction cs arbitrary: pre w)
     (simp_all add: os_mkdir_decoder Let_def
        cong: option.case_cong entry.case_cong prod.case_cong sum.case_cong)

lemma write_file_decoder: "write_file (env\<lparr>image_open := g\<rparr>) p d w = write_file env p d w"
  by (simp add: write_file_def Let_def cong: option.case_cong if_cong)

lemma read_file_decoder: "read_file (env\<lparr>image_open := g\<rparr>) p w = read_file env p w"
  by (simp add: read_file_def Let_def cong: option.case_cong if_cong)

lemma unlink_decoder: "unlink (env\<lparr>image_open := g\<rparr>) p w = unlink env p w"
  by (simp add: unlink_def Let_def cong: option.case_cong if_cong)

lemma process_frame_decoder:
  "process_frame (env\<lparr>image_open := g\<rparr>) keep s f t o' w = process_frame env keep s f t o' w"
  by (simp add: process_frame_def try_body_def finally_block_def call_remove_def
      write_file_decoder read_file_decoder unlink_decoder
      cong: prod.case_cong sum.case_cong option.case_cong if_cong)

lemma frame_loop_decoder:
  "frame_loop (env\<lparr>image_open := g\<rparr>) out keep s k fr w = frame_loop env out keep s k fr w"
  by (induction fr arbitrary: k w)
     (simp_all add: process_frame_decoder Let_def cong: prod.case_cong sum.case_cong)

lemma try_block_duration:
  "try_block (env\<lparr>image_open := \<lambda>b. map_sum id (\<lambda>gif. gif\<lparr>info_duration := d\<rparr>) (image_open env b)\<rparr>)
      input_path output_path keep s w
   = try_block env input_path output_path keep s w"
proof -
  obtain r1 w1 where a: "read_file env input_path w = (r1, w1)" by force
  show ?thesis
  proof (cases r1)
    case (Inl e)
    with a show ?thesis by (simp add: try_block_def open_image_def read_file_decoder)
  next
    case (Inr b)
    show ?thesis
    proof (cases "image_open env b")
      case (Inl e)
      with a Inr show ?thesis by (simp add: try_block_def open_image_def read_file_decoder)
    next
      case gif: (Inr gif)
      with a Inr show ?thesis
        by (simp add: try_block_def open_image_def read_file_decoder frame_loop_decoder)
    qed
  qed
qed

subsection \<open>The duration metadata\<close>

text \<open>
  C9. The display duration of the container does not influence any output. Two runs
  whose decoded containers differ only in the \<open>duration\<close> entry of \<open>info\<close> (any value \<open>d\<close>,
  or none, in place of the one the decoder reports) return the same value and leave the
  same world: the same files with the same names and contents, and the same log.
\<close>

theorem duration_metadata_unused:
  "process_gif (env\<lparr>image_open := \<lambda>b. map_sum id (\<lambda>gif. gif\<lparr>info_duration := d\<rparr>) (image_open env b)\<rparr>)
      input_gif_path output_folder keep_temp_files model_name w
   = process_gif env input_gif_path output_folder keep_temp_files model_name w"
  by (simp add: process_gif_def mkdir_parents_def mkdir_from_decoder create_session_def
      try_block_duration Let_def cong: prod.case_cong sum.case_cong if_cong)

text \<open>The sample animation reports 40 ms; without the entry the run is the same.\<close>

theorem duration_metadata_unused_witness:
  "image_open (sample_env\<lparr>image_open := \<lambda>b. map_sum id (\<lambda>gif. gif\<lparr>info_duration := None\<rparr>)
        (image_open sample_env b)\<rparr>) gif_bytes = Inr \<lparr>info_duration = None, frames = [1, 2, 3]\<rparr>
   \<and> image_open sample_env gif_bytes = Inr \<lparr>info_duration = Some 40, frames = [1, 2, 3]\<rparr>
   \<and> process_gif (sample_env\<lparr>image_open := \<lambda>b. map_sum id (\<lambda>gif. gif\<lparr>info_duration := None\<rparr>)
        (image_open sample_env b)\<rparr>) [''sample.gif''] [''out''] False None sample_world
      = process_gif sample_env [''sample.gif''] [''out''] False None sample_world
   \<and> fst (process_gif sample_env [''sample.gif''] [''out''] False None sample_world) = Inr [''out'']"
proof -
  have "fst (process_gif sample_env [''sample.gif''] [''out''] False None sample_world) = Inr [''out'']"
    by code_simp
  then show ?thesis
    using duration_metadata_unused [of None sample_env "[''sample.gif'']" "[''out'']" False None sample_world]
    by (simp add: sample_env_def)
qed

subsection \<open>The stages of a run\<close>

lemma mkdir_parents_keeps:
  "mkdir_parents env out w = (r, w') \<Longrightarrow> fs w p = Some e \<Longrightarrow> fs w' p = Some e"
  unfolding mkdir_parents_def by (rule mkdir_from_keeps)

lemma mkdir_parents_deep:
  "mkdir_parents env out w = (r, w') \<Longrightarrow> fs w' (out @ [n]) = fs w (out @ [n])"
  unfolding mkdir_parents_def by (erule mkdir_from_deep) simp

lemma decoded_frames_cong:
  "fs w1 input_path = fs w input_path \<Longrightarrow>
   decoded_frames env w1 input_path = decoded_frames env w input_path"
  by (simp add: decoded_frames_def)

lemma open_image_fs: "open_image env input_path w = (r, w') \<Longrightarrow> fs w' = fs w"
  by (auto simp: open_image_def split: prod.splits sum.splits dest: read_file_fs)

lemma open_image_ok:
  "open_image env input_path w = (Inr gif, w') \<Longrightarrow> frames gif = decoded_frames env w input_path"
  by (auto simp: open_image_def decoded_frames_def split: prod.splits sum.splits dest!: read_file_ok)

text \<open>The three ways through the outer \<open>try\<close>.\<close>

lemma try_block_cases:
  assumes "try_block env input_path output_path keep s w = (r, w')"
  obtains (decode) e where "open_image env input_path w = (Inl e, w')" "r = Inl e"
  | (loop) gif w1 e where "open_image env input_path w = (Inr gif, w1)"
      "frame_loop env output_path keep s 0 (frames gif) w1 = (Inl e, w')" "r = Inl e"
  | (finished) gif w1 c w2 where "open_image env input_path w = (Inr gif, w1)"
      "frame_loop env output_path keep s 0 (frames gif) w1 = (Inr c, w2)" "r = Inr output_path"
      "w' = logging INFO (''Successfully processed '' @ str_nat c @ '' frames'') w2"
proof -
  obtain r1 w1 where a: "open_image env input_path w = (r1, w1)" by force
  show thesis
  proof (cases r1)
    case (Inl e)
    with a assms have "open_image env input_path w = (Inl e, w')" "r = Inl e"
      by (simp_all add: try_block_def)
    then show thesis by (rule decode)
  next
    case (Inr gif)
    obtain r2 w2 where b: "frame_loop env output_path keep s 0 (frames gif) w1 = (r2, w2)"
      by force
    show thesis
    proof (cases r2)
      case (Inl e)
      with a b Inr assms have "open_image env input_path w = (Inr gif, w1)"
        "frame_loop env output_path keep s 0 (frames gif) w1 = (Inl e, w')" "r = Inl e"
        by (simp_all add: try_block_def)
      then show thesis by (rule loop)
    next
      case c: (Inr c)
      with a b Inr assms have "open_image env input_path w = (Inr gif, w1)"
        "frame_loop env output_path keep s 0 (frames gif) w1 = (Inr c, w2)" "r = Inr output_path"
        "w' = logging INFO (''Successfully processed '' @ str_nat c @ '' frames'') w2"
        by (simp_all add: try_block_def)
      then show thesis by (rule finished)
    qed
  qed
qed

text \<open>The four ways through \<open>process_gif\<close> once validation has passed.\<close>

lemma process_gif_cases:
  assumes "process_gif env input_path output_path keep model_name w = (r, w')"
    and "path_exists w input_path" and "lower (suffix input_path) = ''.gif''"
  obtains (mkdir) e where "mkdir_parents env output_path w = (Inl e, w')" "r = Inl e"
  | (session) u w1 e where "mkdir_parents env output_path w = (Inr u, w1)"
      "new_session env (session_arg model_name) = Inl e" "r = Inl e"
      "w' = with_session model_name (announced input_path output_path w1)"
  | (failed) u w1 s e w5 where "mkdir_parents env output_path w = (Inr u, w1)"
      "new_session env (session_arg model_name) = Inr s"
      "try_block env input_path output_path keep s
         (with_session model_name (announced input_path output_path w1)) = (Inl e, w5)"
      "r = Inl e" "w' = logging ERROR (''Error processing GIF: '' @ exn_str e) w5"
  | (succeeded) u w1 s p where "mkdir_parents env output_path w = (Inr u, w1)"
      "new_session env (session_arg model_name) = Inr s"
      "try_block env input_path output_path keep s
         (with_session model_name (announced input_path output_path w1)) = (Inr p, w')"
      "r = Inr p"
proof -
  obtain r1 w1 where a: "mkdir_parents env output_path w = (r1, w1)" by force
  let ?w4 = "with_session model_name (announced input_path output_path w1)"
  show thesis
  proof (cases r1)
    case (Inl e)
    with a assms have "mkdir_parents env output_path w = (Inl e, w')" "r = Inl e"
      by (simp_all add: process_gif_def)
    then show thesis by (rule mkdir)
  next
    case u: (Inr u)
    show thesis
    proof (cases "new_session env (session_arg model_name)")
      case (Inl e)
      with a u assms have "mkdir_parents env output_path w = (Inr u, w1)"
        "new_session env (session_arg model_name) = Inl e" "r = Inl e" "w' = ?w4"
        by (simp_all add: process_gif_def create_session_def announced_def with_session_def Let_def)
      then show thesis by (rule session)
    next
      case s: (Inr s)
      obtain r5 w5 where b: "try_block env input_path output_path keep s ?w4 = (r5, w5)"
        by force
      show thesis
      proof (cases r5)
        case (Inl e)
        with a u s b assms have "mkdir_parents env output_path w = (Inr u, w1)"
          "new_session env (session_arg model_name) = Inr s"
          "try_block env input_path output_path keep s ?w4 = (Inl e, w5)"
          "r = Inl e" "w' = logging ERROR (''Error processing GIF: '' @ exn_str e) w5"
          by (simp_all add: process_gif_def create_session_def announced_def with_session_def Let_def)
        then show thesis by (rule failed)
      next
        case (Inr p)
        with a u s b assms have "mkdir_parents env output_path w = (Inr u, w1)"
          "new_session env (session_arg model_name) = Inr s"
          "try_block env input_path output_path keep s ?w4 = (Inr p, w')"
          "r = Inr p"
          by (simp_all add: process_gif_def create_session_def announced_def with_session_def Let_def)
        then show thesis by (rule succeeded)
      qed
    qed
  qed
qed

lemma process_gif_invalid:
  assumes "process_gif env input_path output_path keep model_name w = (r, w')"
    and "\<not> (path_exists w input_path \<and> lower (suffix input_path) = ''.gif'')"
  shows "w' = w" and "isl r"
  using assms by (auto simp: process_gif_def split: if_splits)

subsection \<open>What a run leaves alone\<close>

lemma announced_fs: "fs (with_session m (announced i o' w)) = fs w"
  by (simp add: with_session_def announced_def logging_fs)




subsection \<open>The output directory after a successful run\<close>

lemma process_gif_success:
  assumes run: "process_gif env input_path output_path keep model_name w = (Inr p, w')"
  obtains s wa w2 where "new_session env (session_arg model_name) = Inr s"
    and "\<And>n. fs wa (output_path @ [n]) = fs w (output_path @ [n])"
    and "frame_loop env output_path keep s 0 (decoded_frames env w input_path) wa
           = (Inr (frame_total env w input_path), w2)"
    and "fs w' = fs w2"
proof -
  have valid: "path_exists w input_path \<and> lower (suffix input_path) = ''.gif''"
    using run process_gif_invalid(2) [OF run] by auto
  then have ex: "path_exists w input_path" and gif: "lower (suffix input_path) = ''.gif''"
    by simp_all
  from gif have "input_path \<noteq> []" using gif_suffix_last by blast
  with ex obtain ei where ei: "fs w input_path = Some ei" by (auto simp: path_exists_def)
  from run ex gif show thesis
  proof (cases rule: process_gif_cases)
    case (succeeded u w1 s p')
    let ?w4 = "with_session model_name (announced input_path output_path w1)"
    have same: "decoded_frames env ?w4 input_path = decoded_frames env w input_path"
      using mkdir_parents_keeps [OF succeeded(1) ei] ei
      by (simp add: decoded_frames_def announced_fs)
    from succeeded(3) show thesis
    proof (cases rule: try_block_cases)
      case (finished gif wa c w2)
      from finished(1) same have fr: "frames gif = decoded_frames env w input_path"
        by (simp add: open_image_ok)
      from finished(2) have "c = length (frames gif)" by (auto dest: frame_loop_count)
      with fr finished(2) have loop:
        "frame_loop env output_path keep s 0 (decoded_frames env w input_path) wa
           = (Inr (frame_total env w input_path), w2)"
        by (simp add: frame_total_def)
      have before: "fs wa (output_path @ [n]) = fs w (output_path @ [n])" for n
        using open_image_fs [OF finished(1)] mkdir_parents_deep [OF succeeded(1)]
        by (simp add: announced_fs)
      from finished(4) have after: "fs w' = fs w2" by (simp add: logging_fs)
      from succeeded(2) before loop after show thesis by (rule that)
    qed simp_all
  qed simp_all
qed

lemma success_other_names:
  assumes run: "process_gif env input_path output_path keep model_name w = (Inr p, w')"
    and other: "\<forall>i. 1 \<le> i \<and> i \<le> frame_total env w input_path \<longrightarrow>
                  n \<noteq> temp_name i \<and> n \<noteq> output_name i"
  shows "fs w' (output_path @ [n]) = fs w (output_path @ [n])"
  using run
proof (rule process_gif_success)
  fix s wa w2
  assume before: "\<And>n. fs wa (output_path @ [n]) = fs w (output_path @ [n])"
    and loop: "frame_loop env output_path keep s 0 (decoded_frames env w input_path) wa
           = (Inr (frame_total env w input_path), w2)"
    and after: "fs w' = fs w2"
  from other have "\<forall>i. 0 < i \<and> i \<le> 0 + length (decoded_frames env w input_path) \<longrightarrow>
      output_path @ [n] \<noteq> output_path @ [temp_name i]
      \<and> output_path @ [n] \<noteq> output_path @ [output_name i]"
    by (simp add: frame_total_def)
  with loop have "fs w2 (output_path @ [n]) = fs wa (output_path @ [n])"
    by (rule frame_loop_other)
  with before after show ?thesis by simp
qed

lemma success_artifacts:
  assumes run: "process_gif env input_path output_path keep model_name w = (Inr p, w')"
    and i: "1 \<le> i" "i \<le> frame_total env w input_path"
  shows "\<exists>px d. convert_rgba env (decoded_frames env w input_path ! (i - 1)) = Inr px
           \<and> fs w' (output_path @ [output_name i]) = Some (File d)
           \<and> fs w' (output_path @ [temp_name i])
               = (if keep then Some (File (png_encode env px)) else None)"
  using run
proof (rule process_gif_success)
  fix s wa w2
  assume loop: "frame_loop env output_path keep s 0 (decoded_frames env w input_path) wa
           = (Inr (frame_total env w input_path), w2)"
    and after: "fs w' = fs w2"
  from i have "0 < i" "i \<le> 0 + length (decoded_frames env w input_path)"
    by (simp_all add: frame_total_def)
  with loop have "\<exists>px d. convert_rgba env (decoded_frames env w input_path ! (i - 0 - 1)) = Inr px
            \<and> remove_bg env (png_encode env px) s = Inr d
            \<and> fs w2 (output_path @ [output_name i]) = Some (File d)
            \<and> fs w2 (output_path @ [temp_name i])
                = (if keep then Some (File (png_encode env px)) else None)"
    by (rule frame_loop_ok)
  with after show ?thesis by auto
qed

text \<open>The names in the output directory after a successful run, from those before it.\<close>

lemma success_dir_names:
  assumes run: "process_gif env input_path output_path keep model_name w = (Inr p, w')"
  shows "dir_names w' output_path =
     (if keep
      then dir_names w output_path \<union> temp_name ` {1..frame_total env w input_path}
             \<union> output_name ` {1..frame_total env w input_path}
      else (dir_names w output_path - temp_name ` {1..frame_total env w input_path})
             \<union> output_name ` {1..frame_total env w input_path})"
proof (rule set_eqI)
  fix n
  let ?N = "frame_total env w input_path"
  let ?rhs = "if keep
      then dir_names w output_path \<union> temp_name ` {1..?N} \<union> output_name ` {1..?N}
      else (dir_names w output_path - temp_name ` {1..?N}) \<union> output_name ` {1..?N}"
  show "(n \<in> dir_names w' output_path) = (n \<in> ?rhs)"
  proof (cases "\<exists>i. 1 \<le> i \<and> i \<le> ?N \<and> (n = temp_name i \<or> n = output_name i)")
    case False
    then have no: "\<forall>i. 1 \<le> i \<and> i \<le> ?N \<longrightarrow> n \<noteq> temp_name i \<and> n \<noteq> output_name i" by blast
    with run have "fs w' (output_path @ [n]) = fs w (output_path @ [n])"
      by (rule success_other_names)
    then have "(n \<in> dir_names w' output_path) = (n \<in> dir_names w output_path)"
      by (simp add: dir_names_def)
    moreover from no have "n \<notin> temp_name ` {1..?N}" "n \<notin> output_name ` {1..?N}"
      by auto
    ultimately show ?thesis by simp
  next
    case True
    then obtain i where i: "1 \<le> i" "i \<le> ?N" and n: "n = temp_name i \<or> n = output_name i"
      by blast
    from success_artifacts [OF run i] obtain px d where
      o: "fs w' (output_path @ [output_name i]) = Some (File d)" and
      t: "fs w' (output_path @ [temp_name i]) = (if keep then Some (File (png_encode env px)) else None)"
      by blast
    from i have mem: "temp_name i \<in> temp_name ` {1..?N}" "output_name i \<in> output_name ` {1..?N}"
      by simp_all
    from n show ?thesis
    proof
      assume "n = output_name i"
      with o mem(2) show ?thesis by (simp add: dir_names_def)
    next
      assume nt: "n = temp_name i"
      have "temp_name i \<notin> output_name ` {1..?N}"
        using temp_name_neq_output_name by blast
      with nt t mem(1) show ?thesis by (simp add: dir_names_def)
    qed
  qed
qed

lemma card_output_names: "card (output_name ` {1..n}) = n"
proof -
  have "inj_on output_name {1..n}" by (auto intro: inj_onI dest: output_name_inj)
  then show ?thesis by (simp add: card_image)
qed

lemma card_temp_names: "card (temp_name ` {1..n}) = n"
proof -
  have "inj_on temp_name {1..n}" by (auto intro: inj_onI dest: temp_name_inj)
  then show ?thesis by (simp add: card_image)
qed

lemma temp_output_names_disjoint: "temp_name ` A \<inter> output_name ` B = {}"
  using temp_name_neq_output_name by auto

lemma card_artifact_names: "card (temp_name ` {1..n} \<union> output_name ` {1..n}) = 2 * n"
proof -
  have "card (temp_name ` {1..n} \<union> output_name ` {1..n})
      = card (temp_name ` {1..n}) + card (output_name ` {1..n})"
    by (rule card_Un_disjoint) (simp_all add: temp_output_names_disjoint)
  then show ?thesis by (simp only: card_temp_names card_output_names)
qed

subsection \<open>The files a successful run produces\<close>

lemma three_indices: "{1..3::nat} = {1, 2, 3}"
  by auto

lemma sample_output_names:
  "output_name 1 = ''frame_001_bg_removed.png''"
  "output_name 2 = ''frame_002_bg_removed.png''"
  "output_name 3 = ''frame_003_bg_removed.png''"
  "output_name 1000 = ''frame_1000_bg_removed.png''"
  by code_simp+

lemma sample_temp_names:
  "temp_name 1 = ''frame_001.png''"
  "temp_name 2 = ''frame_002.png''"
  "temp_name 3 = ''frame_003.png''"
  by code_simp+

lemma sample_output_image:
  "output_name ` {1..3} = {''frame_001_bg_removed.png'', ''frame_002_bg_removed.png'',
     ''frame_003_bg_removed.png''}"
  unfolding three_indices by (simp only: image_insert image_empty sample_output_names)

lemma sample_temp_image:
  "temp_name ` {1..3} = {''frame_001.png'', ''frame_002.png'', ''frame_003.png''}"
  unfolding three_indices by (simp only: image_insert image_empty sample_temp_names)

lemma pair_of_fst: "fst x = a \<Longrightarrow> x = (a, snd x)"
  by (cases x) simp

text \<open>
  C1, as amended. A successful run with \<open>keep_temp_files = False\<close> on an input of \<open>N\<close>
  frames, into an output directory that holds no entry before the run (it is absent or
  empty), leaves in that directory exactly the \<open>N\<close> files
  \<open>frame_{i:03d}_bg_removed.png\<close>, \<open>i\<close> from 1 to \<open>N\<close>, and no temporary file. The counter
  starts at 1 and the number widens beyond three digits: frame 1 is
  \<open>frame_001_bg_removed.png\<close>, frame 1000 is \<open>frame_1000_bg_removed.png\<close>.
\<close>

theorem default_run_outputs:
  "process_gif env input_gif_path output_folder False model_name w = (Inr p, w') \<Longrightarrow>
   dir_names w output_folder = {} \<Longrightarrow>
   dir_names w' output_folder = output_name ` {1..frame_total env w input_gif_path}
   \<and> card (dir_names w' output_folder) = frame_total env w input_gif_path
   \<and> (\<forall>i. 1 \<le> i \<and> i \<le> frame_total env w input_gif_path \<longrightarrow>
          (\<exists>d. fs w' (output_folder @ [output_name i]) = Some (File d)))
   \<and> (\<forall>i. fs w' (output_folder @ [temp_name i]) = None)
   \<and> output_name 1 = ''frame_001_bg_removed.png''
   \<and> output_name 1000 = ''frame_1000_bg_removed.png''"
proof -
  assume run: "process_gif env input_gif_path output_folder False model_name w = (Inr p, w')"
    and fresh: "dir_names w output_folder = {}"
  let ?N = "frame_total env w input_gif_path"
  from success_dir_names [OF run] fresh
  have names: "dir_names w' output_folder = output_name ` {1..?N}" by simp
  then have count: "card (dir_names w' output_folder) = ?N"
    by (simp only: card_output_names)
  have files: "\<exists>d. fs w' (output_folder @ [output_name i]) = Some (File d)"
    if "1 \<le> i \<and> i \<le> ?N" for i
    using success_artifacts [OF run, of i] that by blast
  have no_temp: "fs w' (output_folder @ [temp_name i]) = None" for i
  proof -
    have "temp_name i \<notin> output_name ` {1..?N}"
      using temp_name_neq_output_name by blast
    with names have "temp_name i \<notin> dir_names w' output_folder" by simp
    then show ?thesis by (simp add: dir_names_def)
  qed
  from names count files no_temp sample_output_names(1,4) show ?thesis by blast
qed

text \<open>The sample animation, three frames, into a directory that does not exist yet.\<close>

theorem default_run_outputs_witness:
  "dir_names sample_world [''out''] = {}
   \<and> fst (process_gif sample_env [''sample.gif''] [''out''] False None sample_world) = Inr [''out'']
   \<and> frame_total sample_env sample_world [''sample.gif''] = 3
   \<and> dir_names (snd (process_gif sample_env [''sample.gif''] [''out''] False None sample_world)) [''out'']
       = {''frame_001_bg_removed.png'', ''frame_002_bg_removed.png'', ''frame_003_bg_removed.png''}
   \<and> card (dir_names (snd (process_gif sample_env [''sample.gif''] [''out''] False None sample_world))
        [''out'']) = 3"
proof -
  let ?R = "process_gif sample_env [''sample.gif''] [''out''] False None sample_world"
  have h1: "dir_names sample_world [''out''] = {}"
    by (simp add: dir_names_def sample_world_def empty_world_def)
  have h2: "fst ?R = Inr [''out'']" by code_simp
  have h3: "frame_total sample_env sample_world [''sample.gif''] = 3" by code_simp
  from h2 have run: "?R = (Inr [''out''], snd ?R)" by (rule pair_of_fst)
  from default_run_outputs [OF run h1]
  have "dir_names (snd ?R) [''out''] = output_name ` {1..3}" "card (dir_names (snd ?R) [''out'']) = 3"
    unfolding h3 by blast+
  with h1 h2 h3 show ?thesis by (simp only: sample_output_image simp_thms)
qed

text \<open>
  The claim as stated does not ask for an empty output directory. A directory that
  already holds \<open>notes.txt\<close> holds four files after a successful run on three frames.
\<close>

theorem default_run_counterexample:
  "fst (process_gif sample_env [''sample.gif''] [''out''] False None used_world) = Inr [''out'']
   \<and> frame_total sample_env used_world [''sample.gif''] = 3
   \<and> dir_names (snd (process_gif sample_env [''sample.gif''] [''out''] False None used_world)) [''out'']
       = {''notes.txt'', ''frame_001_bg_removed.png'', ''frame_002_bg_removed.png'',
          ''frame_003_bg_removed.png''}
   \<and> card (dir_names (snd (process_gif sample_env [''sample.gif''] [''out''] False None used_world))
        [''out'']) = 4"
proof -
  let ?R = "process_gif sample_env [''sample.gif''] [''out''] False None used_world"
  have h1: "dir_names used_world [''out''] = {''notes.txt''}"
    by (auto simp: dir_names_def used_world_def empty_world_def)
  have h2: "fst ?R = Inr [''out'']" by code_simp
  have h3: "frame_total sample_env used_world [''sample.gif''] = 3" by code_simp
  from h2 have run: "?R = (Inr [''out''], snd ?R)" by (rule pair_of_fst)
  have "dir_names (snd ?R) [''out'']
      = {''notes.txt'', ''frame_001_bg_removed.png'', ''frame_002_bg_removed.png'',
          ''frame_003_bg_removed.png''}"
    using success_dir_names [OF run]
    unfolding h1 h3 sample_output_image sample_temp_image by auto
  with h2 h3 show ?thesis by simp
qed

text \<open>
  C5, as amended. A successful run with \<open>keep_temp_files = True\<close> on an input of \<open>N\<close>
  frames, into an output directory that holds no entry before the run, leaves in that
  directory exactly \<open>2N\<close> files, \<open>frame_{i:03d}.png\<close> and \<open>frame_{i:03d}_bg_removed.png\<close> for
  \<open>i\<close> from 1 to \<open>N\<close>; the temporary file of frame \<open>i\<close> holds the PNG encoding of that frame
  converted to RGBA, before background removal.
\<close>

theorem keep_temp_run_outputs:
  "process_gif env input_gif_path output_folder True model_name w = (Inr p, w') \<Longrightarrow>
   dir_names w output_folder = {} \<Longrightarrow>
   dir_names w' output_folder
     = temp_name ` {1..frame_total env w input_gif_path}
       \<union> output_name ` {1..frame_total env w input_gif_path}
   \<and> card (dir_names w' output_folder) = 2 * frame_total env w input_gif_path
   \<and> (\<forall>i. 1 \<le> i \<and> i \<le> frame_total env w input_gif_path \<longrightarrow>
          (\<exists>px. convert_rgba env (decoded_frames env w input_gif_path ! (i - 1)) = Inr px
             \<and> fs w' (output_folder @ [temp_name i]) = Some (File (png_encode env px))))"
proof -
  assume run: "process_gif env input_gif_path output_folder True model_name w = (Inr p, w')"
    and fresh: "dir_names w output_folder = {}"
  let ?N = "frame_total env w input_gif_path"
  from success_dir_names [OF run] fresh
  have names: "dir_names w' output_folder = temp_name ` {1..?N} \<union> output_name ` {1..?N}"
    by simp
  then have count: "card (dir_names w' output_folder) = 2 * ?N"
    by (simp only: card_artifact_names)
  have temps: "\<exists>px. convert_rgba env (decoded_frames env w input_gif_path ! (i - 1)) = Inr px
             \<and> fs w' (output_folder @ [temp_name i]) = Some (File (png_encode env px))"
    if "1 \<le> i \<and> i \<le> ?N" for i
    using success_artifacts [OF run, of i] that by auto
  from names count temps show ?thesis by blast
qed

theorem keep_temp_run_outputs_witness:
  "dir_names sample_world [''out''] = {}
   \<and> fst (process_gif sample_env [''sample.gif''] [''out''] True None sample_world) = Inr [''out'']
   \<and> frame_total sample_env sample_world [''sample.gif''] = 3
   \<and> dir_names (snd (process_gif sample_env [''sample.gif''] [''out''] True None sample_world)) [''out'']
       = {''frame_001.png'', ''frame_002.png'', ''frame_003.png'',
          ''frame_001_bg_removed.png'', ''frame_002_bg_removed.png'', ''frame_003_bg_removed.png''}
   \<and> card (dir_names (snd (process_gif sample_env [''sample.gif''] [''out''] True None sample_world))
        [''out'']) = 6
   \<and> fs (snd (process_gif sample_env [''sample.gif''] [''out''] True None sample_world))
        [''out'', ''frame_002.png''] = Some (File (png_encode sample_env 2))"
proof -
  let ?R = "process_gif sample_env [''sample.gif''] [''out''] True None sample_world"
  have h1: "dir_names sample_world [''out''] = {}"
    by (simp add: dir_names_def sample_world_def empty_world_def)
  have h2: "fst ?R = Inr [''out'']" by code_simp
  have h3: "frame_total sample_env sample_world [''sample.gif''] = 3" by code_simp
  have h4: "fs (snd ?R) [''out'', ''frame_002.png''] = Some (File (png_encode sample_env 2))"
    by code_simp
  from h2 have run: "?R = (Inr [''out''], snd ?R)" by (rule pair_of_fst)
  from keep_temp_run_outputs [OF run h1]
  have "dir_names (snd ?R) [''out''] = temp_name ` {1..3} \<union> output_name ` {1..3}"
    "card (dir_names (snd ?R) [''out'']) = 2 * 3"
    unfolding h3 by blast+
  then have "dir_names (snd ?R) [''out'']
      = {''frame_001.png'', ''frame_002.png'', ''frame_003.png'',
          ''frame_001_bg_removed.png'', ''frame_002_bg_removed.png'', ''frame_003_bg_removed.png''}"
    "card (dir_names (snd ?R) [''out'']) = 6"
    unfolding sample_output_image sample_temp_image by auto
  with h1 h2 h3 h4 show ?thesis by (simp only: simp_thms)
qed

text \<open>
  The claim as stated does not ask for an empty output directory. When the animation
  lies in the output directory itself, that directory holds seven files after a
  successful run on three frames.
\<close>

theorem keep_temp_run_counterexample:
  "fst (process_gif sample_env [''out'', ''sample.gif''] [''out''] True None shared_world) = Inr [''out'']
   \<and> frame_total sample_env shared_world [''out'', ''sample.gif''] = 3
   \<and> dir_names (snd (process_gif sample_env [''out'', ''sample.gif''] [''out''] True None shared_world))
        [''out'']
       = {''sample.gif'', ''frame_001.png'', ''frame_002.png'', ''frame_003.png'',
          ''frame_001_bg_removed.png'', ''frame_002_bg_removed.png'', ''frame_003_bg_removed.png''}
   \<and> card (dir_names (snd (process_gif sample_env [''out'', ''sample.gif''] [''out''] True None
        shared_world)) [''out'']) = 7"
proof -
  let ?R = "process_gif sample_env [''out'', ''sample.gif''] [''out''] True None shared_world"
  have h1: "dir_names shared_world [''out''] = {''sample.gif''}"
    by (auto simp: dir_names_def shared_world_def empty_world_def)
  have h2: "fst ?R = Inr [''out'']" by code_simp
  have h3: "frame_total sample_env shared_world [''out'', ''sample.gif''] = 3" by code_simp
  from h2 have run: "?R = (Inr [''out''], snd ?R)" by (rule pair_of_fst)
  have "dir_names (snd ?R) [''out'']
      = {''sample.gif'', ''frame_001.png'', ''frame_002.png'', ''frame_003.png'',
          ''frame_001_bg_removed.png'', ''frame_002_bg_removed.png'', ''frame_003_bg_removed.png''}"
    using success_dir_names [OF run]
    unfolding h1 h3 sample_output_image sample_temp_image by auto
  with h2 h3 show ?thesis by simp
qed

subsection \<open>Logs and collaborator calls\<close>



















subsection \<open>Cleanup of the temporary file\<close>




subsection \<open>Only the frames that were begun leave traces\<close>






subsection \<open>The frame of the filesystem effects\<close>




subsection \<open>The inference session\<close>




subsection \<open>Reporting errors\<close>





end
